theory Spec2Isabelle
  imports Main "HOL-Library.Sublist"
begin

section \<open>The chat page of \<^verbatim>\<open>src/pages/Index.tsx\<close>\<close>

text \<open>
  The page is a single React component. Its component state is six \<^verbatim>\<open>useState\<close> cells;
  its two handlers, \<^verbatim>\<open>onDrop\<close> and \<^verbatim>\<open>handleSend\<close>, read the cells of the render they
  were created in and talk to the outside through \<^verbatim>\<open>fetch\<close>, \<^verbatim>\<open>toast\<close>, \<^verbatim>\<open>delay\<close> and the
  console. A handler is modelled as a function from the component state (and what the
  environment answers) to the state it leaves behind and the list of effects it performed,
  in the order it performed them. One handler runs at a time.
\<close>

subsection \<open>JavaScript values\<close>

text \<open>
  What \<^verbatim>\<open>response.json()\<close> gives, and what reading properties off it gives. A number is
  kept as the text \<^verbatim>\<open>String(n)\<close> prints for it: the page never computes with a number of a
  response, it only tests it for truth and prints it. An object is the list of its own
  properties, each key once.
\<close>

datatype jsval =
    Undefined
  | Null
  | JBool bool
  | JNum string
  | JStr string
  | JArr "jsval list"
  | JObj "(string \<times> jsval) list"

text \<open>
  What a \<^verbatim>\<open>catch\<close> clause can receive: an \<^verbatim>\<open>Error\<close> object (also \<^verbatim>\<open>TypeError\<close>,
  \<^verbatim>\<open>SyntaxError\<close>, which are instances of \<^verbatim>\<open>Error\<close>) with its message, or any other value
  a promise was rejected with.
\<close>

datatype thrown = JsError string | NonError

fun instanceof_Error :: "thrown \<Rightarrow> bool" where
  "instanceof_Error (JsError _) = True"
| "instanceof_Error NonError = False"

fun message :: "thrown \<Rightarrow> string" where
  "message (JsError m) = m"
| "message NonError = []"

text \<open>\<^verbatim>\<open>ToBoolean\<close>: what \<^verbatim>\<open>!v\<close> and \<^verbatim>\<open>v || w\<close> test.\<close>

fun truthy :: "jsval \<Rightarrow> bool" where
  "truthy Undefined = False"
| "truthy Null = False"
| "truthy (JBool b) = b"
| "truthy (JNum n) = (n \<noteq> ''0'' \<and> n \<noteq> ''NaN'')"
| "truthy (JStr s) = (s \<noteq> [])"
| "truthy (JArr _) = True"
| "truthy (JObj _) = True"

text \<open>
  \<^verbatim>\<open>ToString\<close>, which \<^verbatim>\<open>new Error(v)\<close> applies to its argument. An array is printed by
  \<^verbatim>\<open>join\<close>, its elements from left to right, \<^verbatim>\<open>undefined\<close> and \<^verbatim>\<open>null\<close> as nothing. An
  object is printed by the \<^verbatim>\<open>toString\<close> it inherits, unless it has a property
  \<^verbatim>\<open>toString\<close> of its own: no value of a response is a function, so that property cannot
  be called, \<^verbatim>\<open>valueOf\<close> gives no primitive either, and the conversion throws a
  \<^verbatim>\<open>TypeError\<close> (worded as V8 does).
\<close>

fun join :: "string \<Rightarrow> string list \<Rightarrow> string" where
  "join sep [] = []"
| "join sep [x] = x"
| "join sep (x # y # ys) = x @ sep @ join sep (y # ys)"

text \<open>The results of a sequence of steps, or what the first failing step throws.\<close>

fun all_or_first_error :: "(thrown + 'a) list \<Rightarrow> thrown + 'a list" where
  "all_or_first_error [] = Inr []"
| "all_or_first_error (Inl e # rs) = Inl e"
| "all_or_first_error (Inr x # rs) =
     (case all_or_first_error rs of Inl e \<Rightarrow> Inl e | Inr xs \<Rightarrow> Inr (x # xs))"

fun ToString :: "jsval \<Rightarrow> thrown + string" where
  "ToString Undefined = Inr ''undefined''"
| "ToString Null = Inr ''null''"
| "ToString (JBool b) = Inr (if b then ''true'' else ''false'')"
| "ToString (JNum n) = Inr n"
| "ToString (JStr s) = Inr s"
| "ToString (JArr xs) =
     (case all_or_first_error
             (map (\<lambda>v. if v = Undefined \<or> v = Null then Inr [] else ToString v) xs) of
        Inl e \<Rightarrow> Inl e
      | Inr ss \<Rightarrow> Inr (join '','' ss))"
| "ToString (JObj kvs) =
     (if map_of kvs ''toString'' = None then Inr ''[object Object]''
      else Inl (JsError ''Cannot convert object to primitive value''))"

text \<open>
  Property keys are strings; \<^verbatim>\<open>v[0]\<close> reads the key \<^verbatim>\<open>"0"\<close>. A key is an array index when
  it is the decimal numeral of a number, without leading zeros.
\<close>

definition is_digit :: "char \<Rightarrow> bool" where
  "is_digit c = (c \<in> set ''0123456789'')"

definition digit_val :: "char \<Rightarrow> nat" where
  "digit_val c = of_char c - 48"

definition array_index :: "string \<Rightarrow> nat option" where
  "array_index k =
     (if k \<noteq> [] \<and> list_all is_digit k \<and> (length k = 1 \<or> hd k \<in> set ''123456789'')
      then Some (foldl (\<lambda>n c. 10 * n + digit_val c) 0 k) else None)"

text \<open>The text of the \<^verbatim>\<open>TypeError\<close> for reading a property of \<^verbatim>\<open>undefined\<close> or
  \<^verbatim>\<open>null\<close> (as V8 words it).\<close>

definition type_error_message :: "string \<Rightarrow> string \<Rightarrow> string" where
  "type_error_message base k =
     ''Cannot read properties of '' @ base @ '' (reading '' @ [CHR 0x27] @ k @ [CHR 0x27] @ '')''"

text \<open>
  \<^verbatim>\<open>v[k]\<close> and \<^verbatim>\<open>v.k\<close>. Reading off \<^verbatim>\<open>undefined\<close> or \<^verbatim>\<open>null\<close> throws; a missing property
  is \<^verbatim>\<open>undefined\<close>. Properties inherited from the prototypes (\<^verbatim>\<open>length\<close>, \<^verbatim>\<open>toString\<close>,
  ...) are left out: the page reads \<^verbatim>\<open>candidates\<close>, \<^verbatim>\<open>0\<close>, \<^verbatim>\<open>content\<close>, \<^verbatim>\<open>parts\<close>,
  \<^verbatim>\<open>text\<close>, \<^verbatim>\<open>error\<close> and \<^verbatim>\<open>message\<close> only.
\<close>

fun get_prop :: "jsval \<Rightarrow> string \<Rightarrow> thrown + jsval" where
  "get_prop Undefined k = Inl (JsError (type_error_message ''undefined'' k))"
| "get_prop Null k = Inl (JsError (type_error_message ''null'' k))"
| "get_prop (JBool _) k = Inr Undefined"
| "get_prop (JNum _) k = Inr Undefined"
| "get_prop (JStr s) k =
     (case array_index k of
        Some i \<Rightarrow> if i < length s then Inr (JStr [s ! i]) else Inr Undefined
      | None \<Rightarrow> Inr Undefined)"
| "get_prop (JArr xs) k =
     (case array_index k of
        Some i \<Rightarrow> if i < length xs then Inr (xs ! i) else Inr Undefined
      | None \<Rightarrow> Inr Undefined)"
| "get_prop (JObj kvs) k =
     (case map_of kvs k of Some v \<Rightarrow> Inr v | None \<Rightarrow> Inr Undefined)"

text \<open>A further property read in a chain \<^verbatim>\<open>a.b.c\<close>: nothing is read once one read has
  thrown.\<close>

definition then_get :: "thrown + jsval \<Rightarrow> string \<Rightarrow> thrown + jsval" where
  "then_get r k = (case r of Inl e \<Rightarrow> Inl e | Inr v \<Rightarrow> get_prop v k)"

text \<open>The decimal numeral of a natural number, as \<^verbatim>\<open>toString\<close> and template literals
  print an integer.\<close>

fun show_nat :: "nat \<Rightarrow> string" where
  "show_nat n =
     (if n < 10 then [''0123456789'' ! n]
      else show_nat (n div 10) @ [''0123456789'' ! (n mod 10)])"

declare show_nat.simps [simp del]

subsection \<open>The data of the page\<close>

datatype role = User | Assistant

text \<open>The type of \<^verbatim>\<open>content\<close> is \<^verbatim>\<open>string\<close> in the source, but an assistant message gets
  whatever value the response holds at \<^verbatim>\<open>candidates[0].content.parts[0].text\<close>.\<close>

record message_t =
  role :: role
  content :: jsval

record context_t =
  ctx_id :: string
  ctx_name :: string
  ctx_content :: string

record app_state =
  messages :: "message_t list"
  contexts :: "context_t list"
  selectedContext :: string
  input :: string
  isLoading :: bool
  apiKey :: string

datatype variant = Default | Destructive

record toast_t =
  title :: string
  description :: string
  variant :: variant

record request =
  url :: string
  http_method :: string
  headers :: "(string \<times> string) list"
  body :: jsval

text \<open>
  A response as the page reads it: \<^verbatim>\<open>status\<close>, \<^verbatim>\<open>statusText\<close>, and what \<^verbatim>\<open>json()\<close>
  settles to (a rejection when the body is not JSON). \<^verbatim>\<open>ok\<close> is true for a status from
  200 to 299.
\<close>

record response =
  status :: nat
  statusText :: string
  json :: "thrown + jsval"

definition ok :: "response \<Rightarrow> bool" where
  "ok r = (200 \<le> status r \<and> status r \<le> 299)"

text \<open>
  The endpoint: what the \<open>n\<close>-th call of \<^verbatim>\<open>fetch\<close> of one run of the handler
  (counting from 0) settles to, for the request it is sent: a rejection, or a response.
\<close>

type_synonym endpoint = "nat \<Rightarrow> request \<Rightarrow> thrown + response"

text \<open>The effects a handler performs.\<close>

datatype event =
    Fetch request
  | Toast toast_t
  | Delay nat
  | ConsoleError thrown
  | ConsoleLog context_t

subsection \<open>Sending a message\<close>

text \<open>\<^verbatim>\<open>String.prototype.trim\<close> removes white space and line terminators from both ends;
  these are the ones among the characters of \<^typ>\<open>char\<close>.\<close>

definition is_ws :: "char \<Rightarrow> bool" where
  "is_ws c = (c \<in> {CHR 0x09, CHR 0x0A, CHR 0x0B, CHR 0x0C, CHR 0x0D, CHR 0x20, CHR 0xA0})"

definition trim :: "string \<Rightarrow> string" where
  "trim s = rev (dropWhile is_ws (rev (dropWhile is_ws s)))"

definition maxRetries :: nat where
  "maxRetries = 3"

definition no_context :: string where
  "no_context = ''no-context''"

definition RATE_LIMIT :: string where
  "RATE_LIMIT = ''RATE_LIMIT''"

text \<open>The first sentences of the template of \<^verbatim>\<open>makeRequest\<close>, up to the blank line.\<close>

definition restrictive_instruction :: string where
  "restrictive_instruction =
     ''You are a helpful assistant. Use ONLY the following context to answer the question. ''
     @ ''If the question cannot be answered using the context, say ''
     @ [CHR 0x22] @ ''I cannot answer this question based on the provided context.'' @ [CHR 0x22]"

text \<open>The variable \<^verbatim>\<open>prompt\<close> of \<^verbatim>\<open>makeRequest\<close>.\<close>

definition prompt :: "app_state \<Rightarrow> string" where
  "prompt s =
     (case find (\<lambda>ctx. ctx_id ctx = selectedContext s) (contexts s) of
        Some ctx \<Rightarrow>
          if selectedContext s \<noteq> no_context
          then restrictive_instruction
               @ [CHR 0x0A, CHR 0x0A] @ ''Context:'' @ [CHR 0x0A] @ ctx_content ctx
               @ [CHR 0x0A, CHR 0x0A] @ ''Question: '' @ input s
               @ [CHR 0x0A, CHR 0x0A] @ ''Answer:''
          else input s
      | None \<Rightarrow> input s)"

definition the_request :: "app_state \<Rightarrow> request" where
  "the_request s =
     \<lparr> url = ''https://generativelanguage.googleapis.com/v1beta/models/gemini-1.5-flash:generateContent?key=''
             @ apiKey s,
       http_method = ''POST'',
       headers = [(''Content-Type'', ''application/json'')],
       body = JObj [(''contents'',
                JArr [JObj [(''parts'', JArr [JObj [(''text'', JStr (prompt s))]])]])] \<rparr>"

text \<open>\<^verbatim>\<open>errorData.error?.message || response.statusText\<close>\<close>

definition error_text :: "jsval \<Rightarrow> string \<Rightarrow> thrown + jsval" where
  "error_text errorData st =
     (case get_prop errorData ''error'' of
        Inl e \<Rightarrow> Inl e
      | Inr err \<Rightarrow>
          (case (if err = Undefined \<or> err = Null then Inr Undefined else get_prop err ''message'') of
             Inl e \<Rightarrow> Inl e
           | Inr m \<Rightarrow> Inr (if truthy m then m else JStr st)))"

text \<open>
  \<^verbatim>\<open>makeRequest\<close>, as the \<open>n\<close>-th call of one run: what it returns or throws. It performs
  one \<^verbatim>\<open>fetch\<close> and nothing else.
\<close>

definition makeRequest :: "endpoint \<Rightarrow> nat \<Rightarrow> app_state \<Rightarrow> thrown + jsval" where
  "makeRequest ep n s =
     (case ep n (the_request s) of
        Inl e \<Rightarrow> Inl e
      | Inr resp \<Rightarrow>
          if \<not> ok resp then
            (case json resp of
               Inl e \<Rightarrow> Inl e
             | Inr errorData \<Rightarrow>
                 if status resp = 429 then Inl (JsError RATE_LIMIT)
                 else (case error_text errorData (statusText resp) of
                         Inl e \<Rightarrow> Inl e
                       | Inr m \<Rightarrow>
                           (case ToString m of
                              Inl e \<Rightarrow> Inl e
                            | Inr t \<Rightarrow> Inl (JsError t))))
          else json resp)"

definition retry_toast :: "nat \<Rightarrow> nat \<Rightarrow> toast_t" where
  "retry_toast waitTime retryCount =
     \<lparr> title = ''Rate limit reached'',
       description = ''Retrying in '' @ show_nat (waitTime div 1000) @ '' seconds... (Attempt ''
                     @ show_nat retryCount @ ''/'' @ show_nat maxRetries @ '')'',
       variant = Default \<rparr>"

text \<open>
  The \<^verbatim>\<open>while\<close> loop of \<^verbatim>\<open>handleSend\<close>, entered with \<open>calls\<close> requests made and
  \<^verbatim>\<open>retryCount\<close> at its value: the value of \<^verbatim>\<open>data\<close> after the loop, or what the loop
  throws, and the effects of the loop.
\<close>

function retry_loop :: "endpoint \<Rightarrow> app_state \<Rightarrow> nat \<Rightarrow> nat \<Rightarrow> (thrown + jsval) \<times> event list" where
  "retry_loop ep s calls retryCount =
     (if retryCount < maxRetries then
        (case makeRequest ep calls s of
           Inr data \<Rightarrow> (Inr data, [Fetch (the_request s)])
         | Inl error \<Rightarrow>
             if instanceof_Error error \<and> message error = RATE_LIMIT
                \<and> retryCount + 1 < maxRetries
             then
               (let waitTime = 2 ^ (retryCount + 1) * 1000;
                    (r, evs) = retry_loop ep s (calls + 1) (retryCount + 1)
                in (r, [Fetch (the_request s), Toast (retry_toast waitTime (retryCount + 1)),
                        Delay waitTime] @ evs))
             else (Inl error, [Fetch (the_request s)]))
      else (Inr Undefined, []))"
  by pat_completeness auto
termination
  by (relation "measure (\<lambda>(ep, s, calls, retryCount). maxRetries - retryCount)") auto

declare retry_loop.simps [simp del]

text \<open>\<^verbatim>\<open>data.candidates[0].content.parts[0].text\<close>, after the test \<^verbatim>\<open>if (!data)\<close>.\<close>

definition extract_text :: "jsval \<Rightarrow> thrown + jsval" where
  "extract_text data =
     (if \<not> truthy data then Inl (JsError ''Failed to get response after retries'')
      else then_get (then_get (then_get (then_get (then_get (get_prop data ''candidates'') ''0'')
             ''content'') ''parts'') ''0'') ''text'')"

definition missing_key_toast :: toast_t where
  "missing_key_toast =
     \<lparr> title = ''API Key Required'',
       description = ''Please enter your Google AI API key to continue'',
       variant = Destructive \<rparr>"

definition error_toast :: "thrown \<Rightarrow> toast_t" where
  "error_toast error =
     (let errorMessage = (if instanceof_Error error then message error
                          else ''Failed to get response'')
      in \<lparr> title = ''Error'',
           description = (if errorMessage = RATE_LIMIT
                          then ''Rate limit exceeded. Please try again later.''
                          else errorMessage),
           variant = Destructive \<rparr>)"

text \<open>
  \<^verbatim>\<open>handleSend\<close>. The request is built from the cells of the render the handler belongs
  to (\<open>s\<close>), not from the cleared input field.
\<close>

definition handleSend :: "endpoint \<Rightarrow> app_state \<Rightarrow> app_state \<times> event list" where
  "handleSend ep s =
     (if trim (input s) = [] then (s, [])
      else if apiKey s = [] then (s, [Toast missing_key_toast])
      else
        (let userMessage = \<lparr> role = User, content = JStr (input s) \<rparr>;
             s1 = s \<lparr> messages := messages s @ [userMessage], input := [], isLoading := True \<rparr>;
             (r, evs) = retry_loop ep s 0 0
         in case (case r of Inl e \<Rightarrow> Inl e | Inr data \<Rightarrow> extract_text data) of
              Inr text \<Rightarrow>
                (s1 \<lparr> messages := messages s1 @ [\<lparr> role = Assistant, content = text \<rparr>],
                      isLoading := False \<rparr>, evs)
            | Inl error \<Rightarrow>
                (s1 \<lparr> isLoading := False \<rparr>, evs @ [Toast (error_toast error), ConsoleError error])))"

subsection \<open>Accepting documents\<close>

text \<open>
  A dropped file: its name and what \<^verbatim>\<open>file.text()\<close> settles to. Each file comes with the
  reading of \<^verbatim>\<open>Date.now()\<close> (milliseconds) at the moment its context is built.
\<close>

record file_t =
  file_name :: string
  file_text :: "thrown + string"

text \<open>The \<^verbatim>\<open>for\<close> loop of \<^verbatim>\<open>onDrop\<close>: the contexts so far, the effects, and what the loop
  threw, if it did.\<close>

fun onDrop_loop :: "(file_t \<times> nat) list \<Rightarrow> context_t list \<Rightarrow> thrown option \<times> context_t list \<times> event list" where
  "onDrop_loop [] ctxs = (None, ctxs, [])"
| "onDrop_loop ((file, now) # rest) ctxs =
     (case file_text file of
        Inl e \<Rightarrow> (Some e, ctxs, [])
      | Inr text \<Rightarrow>
          (let newContext = \<lparr> ctx_id = show_nat now, ctx_name = file_name file, ctx_content = text \<rparr>;
               (r, ctxs', evs) = onDrop_loop rest (ctxs @ [newContext])
           in (r, ctxs', ConsoleLog newContext # evs)))"

definition onDrop :: "(file_t \<times> nat) list \<Rightarrow> app_state \<Rightarrow> app_state \<times> event list" where
  "onDrop acceptedFiles s =
     (case onDrop_loop acceptedFiles (contexts s) of
        (None, ctxs, evs) \<Rightarrow>
          (s \<lparr> contexts := ctxs \<rparr>,
           evs @ [Toast \<lparr> title = ''Success'', description = ''Documents uploaded successfully'',
                         variant = Default \<rparr>])
      | (Some e, ctxs, evs) \<Rightarrow>
          (s \<lparr> contexts := ctxs \<rparr>,
           evs @ [Toast \<lparr> title = ''Error'', description = ''Failed to upload documents'',
                         variant = Destructive \<rparr>]))"

subsection \<open>Observations and example inputs\<close>

text \<open>The number of network calls among the effects of a run.\<close>

definition network_calls :: "event list \<Rightarrow> nat" where
  "network_calls evs = length [e \<leftarrow> evs. case e of Fetch _ \<Rightarrow> True | _ \<Rightarrow> False]"

text \<open>
  The value at the end of a path of property reads, with \<^verbatim>\<open>undefined\<close> where a read would
  throw (as \<^verbatim>\<open>a?.b?.c\<close> gives): it says whether a response body has the structure
  \<^verbatim>\<open>{"candidates":[{"content":{"parts":[{"text": ...}]}}]}\<close> down to some depth.
\<close>

fun safe_path :: "jsval \<Rightarrow> string list \<Rightarrow> jsval" where
  "safe_path v [] = v"
| "safe_path v (k # ks) =
     (case get_prop v k of Inl _ \<Rightarrow> Undefined | Inr w \<Rightarrow> safe_path w ks)"

definition first_part_path :: "string list" where
  "first_part_path = [''candidates'', ''0'', ''content'', ''parts'', ''0'']"

text \<open>A page with one uploaded document selected, a question typed and a key entered.\<close>

definition st_demo :: app_state where
  "st_demo =
     \<lparr> messages = [],
       contexts = [\<lparr> ctx_id = ''1700000000000'', ctx_name = ''sky.txt'',
                     ctx_content = ''The sky is blue.'' \<rparr>],
       selectedContext = ''1700000000000'', input = ''What colour is the sky?'',
       isLoading = False, apiKey = ''secret'' \<rparr>"

definition user_message :: "app_state \<Rightarrow> message_t" where
  "user_message s = \<lparr> role = User, content = JStr (input s) \<rparr>"

text \<open>Responses and endpoints for the examples.\<close>

definition good_body :: "string \<Rightarrow> jsval" where
  "good_body reply =
     JObj [(''candidates'',
        JArr [JObj [(''content'', JObj [(''parts'', JArr [JObj [(''text'', JStr reply)]])])]])]"

definition resp_200 :: "jsval \<Rightarrow> response" where
  "resp_200 b = \<lparr> status = 200, statusText = ''OK'', json = Inr b \<rparr>"

definition resp_429_json :: response where
  "resp_429_json =
     \<lparr> status = 429, statusText = ''Too Many Requests'',
       json = Inr (JObj [(''error'', JObj [(''message'', JStr ''Resource has been exhausted'')])]) \<rparr>"

definition resp_429_empty :: response where
  "resp_429_empty =
     \<lparr> status = 429, statusText = ''Too Many Requests'',
       json = Inl (JsError ''Unexpected end of JSON input'') \<rparr>"

definition resp_500 :: "string \<Rightarrow> response" where
  "resp_500 msg =
     \<lparr> status = 500, statusText = ''Internal Server Error'',
       json = Inr (JObj [(''error'', JObj [(''message'', JStr msg)])]) \<rparr>"

definition ep_down :: endpoint where
  "ep_down n req = Inl (JsError ''Failed to fetch'')"

definition ep_limit_twice :: endpoint where
  "ep_limit_twice n req =
     (if n < 2 then Inr resp_429_json else Inr (resp_200 (good_body ''Blue.'')))"

definition ep_limit_twice_empty :: endpoint where
  "ep_limit_twice_empty n req =
     (if n < 2 then Inr resp_429_empty else Inr (resp_200 (good_body ''Blue.'')))"

definition ep_limit_always_empty :: endpoint where
  "ep_limit_always_empty n req = Inr resp_429_empty"

definition ep_500_boom :: endpoint where
  "ep_500_boom n req = Inr (resp_500 ''boom'')"

definition ep_500_marker :: endpoint where
  "ep_500_marker n req = Inr (resp_500 ''RATE_LIMIT'')"

definition ep_200_no_candidates :: endpoint where
  "ep_200_no_candidates n req = Inr (resp_200 (JObj []))"

definition ep_200_no_text :: endpoint where
  "ep_200_no_text n req =
     Inr (resp_200 (JObj [(''candidates'',
        JArr [JObj [(''content'', JObj [(''parts'', JArr [JObj []])])]])]))"

text \<open>Two documents dropped together, both read within the same millisecond.\<close>

definition two_files_same_ms :: "(file_t \<times> nat) list" where
  "two_files_same_ms =
     [(\<lparr> file_name = ''a.txt'', file_text = Inr ''first'' \<rparr>, 1700000000000),
      (\<lparr> file_name = ''b.txt'', file_text = Inr ''second'' \<rparr>, 1700000000000)]"

section \<open>Properties\<close>

subsection \<open>The guards of the send handler\<close>

lemma trim_eq_Nil: "trim s = [] \<longleftrightarrow> (\<forall>c\<in>set s. is_ws c)"
proof
  assume "trim s = []"
  then have a: "\<forall>c\<in>set (dropWhile is_ws s). is_ws c"
    by (simp add: trim_def dropWhile_eq_Nil_conv)
  have "dropWhile is_ws s = []"
  proof (rule ccontr)
    assume n: "dropWhile is_ws s \<noteq> []"
    then have "\<not> is_ws (hd (dropWhile is_ws s))" by (rule hd_dropWhile)
    moreover have "hd (dropWhile is_ws s) \<in> set (dropWhile is_ws s)" using n by simp
    ultimately show False using a by blast
  qed
  then show "\<forall>c\<in>set s. is_ws c" by (simp add: dropWhile_eq_Nil_conv)
next
  assume "\<forall>c\<in>set s. is_ws c"
  then have "dropWhile is_ws s = []" using dropWhile_eq_Nil_conv by blast
  then show "trim s = []" by (simp add: trim_def del: dropWhile_eq_Nil_conv)
qed

text \<open>
  C10. When the input field is empty or holds white space only, \<^verbatim>\<open>handleSend\<close> does
  nothing: the component state (transcript, contexts, selection, input field, loading
  flag, key) is the one it started from, and it performs no effect at all, so no network
  call and no notification.
\<close>

theorem blank_input_noop:
  assumes "\<forall>c\<in>set (input s). is_ws c"
  shows "handleSend ep s = (s, [])"
  using assms by (simp add: handleSend_def trim_eq_Nil)

theorem blank_input_noop_witness:
  "trim (input (st_demo \<lparr> input := [CHR 0x20, CHR 0x09, CHR 0x20] \<rparr>)) = []
   \<and> handleSend ep_down (st_demo \<lparr> input := [CHR 0x20, CHR 0x09, CHR 0x20] \<rparr>)
       = (st_demo \<lparr> input := [CHR 0x20, CHR 0x09, CHR 0x20] \<rparr>, [])"
proof -
  have h: "\<forall>c\<in>set (input (st_demo \<lparr> input := [CHR 0x20, CHR 0x09, CHR 0x20] \<rparr>)). is_ws c"
    by (simp add: is_ws_def)
  from blank_input_noop [OF h, of ep_down] h show ?thesis
    by (simp only: trim_eq_Nil simp_thms)
qed

text \<open>
  C1. When the input is not blank and the key is empty, the only effect of \<^verbatim>\<open>handleSend\<close>
  is the "API Key Required" notification: no network call is made, nothing precedes or
  follows the notification, and the component state is unchanged.
\<close>

theorem missing_credential:
  assumes "trim (input s) \<noteq> []" and "apiKey s = []"
  shows "handleSend ep s = (s, [Toast missing_key_toast])
         \<and> network_calls (snd (handleSend ep s)) = 0"
  using assms by (simp add: handleSend_def network_calls_def)

theorem missing_credential_witness:
  "trim (input (st_demo \<lparr> apiKey := [] \<rparr>)) \<noteq> [] \<and> apiKey (st_demo \<lparr> apiKey := [] \<rparr>) = []
   \<and> handleSend ep_down (st_demo \<lparr> apiKey := [] \<rparr>)
       = (st_demo \<lparr> apiKey := [] \<rparr>, [Toast missing_key_toast])
   \<and> network_calls (snd (handleSend ep_down (st_demo \<lparr> apiKey := [] \<rparr>))) = 0"
proof -
  have h1: "trim (input (st_demo \<lparr> apiKey := [] \<rparr>)) \<noteq> []"
    by (simp add: st_demo_def trim_def is_ws_def)
  have h2: "apiKey (st_demo \<lparr> apiKey := [] \<rparr>) = []"
    by simp
  from missing_credential [OF h1 h2, of ep_down] h1 h2 show ?thesis
    by blast
qed

subsection \<open>The prompt\<close>

text \<open>
  C2. When the selected id is not the "no context" value and some context has it (the
  first such context is the one \<^verbatim>\<open>find\<close> returns), the prompt contains the instruction
  that restricts the answer to the context and asks to say so when the context does not
  answer the question, the whole text of that context, and the user's input. When the
  selected id is the "no context" value, or no context has it, the prompt is the input.
\<close>

theorem prompt_construction:
  "(find (\<lambda>c. ctx_id c = selectedContext s) (contexts s) = Some ctx
      \<and> selectedContext s \<noteq> no_context
    \<longrightarrow> sublist restrictive_instruction (prompt s) \<and> sublist (ctx_content ctx) (prompt s)
        \<and> sublist (input s) (prompt s))
   \<and> (selectedContext s = no_context \<or> (\<forall>c\<in>set (contexts s). ctx_id c \<noteq> selectedContext s)
      \<longrightarrow> prompt s = input s)"
proof (intro conjI impI)
  assume a: "find (\<lambda>c. ctx_id c = selectedContext s) (contexts s) = Some ctx
      \<and> selectedContext s \<noteq> no_context"
  let ?nl = "[CHR 0x0A, CHR 0x0A]"
  have p: "prompt s = restrictive_instruction @ ?nl @ ''Context:'' @ [CHR 0x0A] @ ctx_content ctx
             @ ?nl @ ''Question: '' @ input s @ ?nl @ ''Answer:''"
    using a by (simp add: prompt_def)
  show "sublist restrictive_instruction (prompt s)"
    unfolding p sublist_def by (rule exI [of _ "[]"]) auto
  have "prompt s = (restrictive_instruction @ ?nl @ ''Context:'' @ [CHR 0x0A]) @ ctx_content ctx
             @ (?nl @ ''Question: '' @ input s @ ?nl @ ''Answer:'')"
    unfolding p by simp
  then show "sublist (ctx_content ctx) (prompt s)"
    unfolding sublist_def by blast
  have "prompt s = (restrictive_instruction @ ?nl @ ''Context:'' @ [CHR 0x0A] @ ctx_content ctx
             @ ?nl @ ''Question: '') @ input s @ (?nl @ ''Answer:'')"
    unfolding p by simp
  then show "sublist (input s) (prompt s)"
    unfolding sublist_def by blast
next
  assume "selectedContext s = no_context \<or> (\<forall>c\<in>set (contexts s). ctx_id c \<noteq> selectedContext s)"
  then show "prompt s = input s"
    by (auto simp: prompt_def find_None_iff split: option.splits)
qed

theorem prompt_construction_witness:
  "find (\<lambda>c. ctx_id c = selectedContext st_demo) (contexts st_demo) = Some (hd (contexts st_demo))
   \<and> selectedContext st_demo \<noteq> no_context
   \<and> sublist restrictive_instruction (prompt st_demo)
   \<and> sublist (ctx_content (hd (contexts st_demo))) (prompt st_demo)
   \<and> sublist (input st_demo) (prompt st_demo)
   \<and> prompt (st_demo \<lparr> selectedContext := ''42'' \<rparr>) = input st_demo
   \<and> prompt (st_demo \<lparr> selectedContext := no_context \<rparr>) = input st_demo"
proof -
  have f: "find (\<lambda>c. ctx_id c = selectedContext st_demo) (contexts st_demo)
             = Some (hd (contexts st_demo)) \<and> selectedContext st_demo \<noteq> no_context"
    by (simp add: st_demo_def no_context_def)
  have g: "\<forall>c\<in>set (contexts (st_demo \<lparr> selectedContext := ''42'' \<rparr>)).
             ctx_id c \<noteq> selectedContext (st_demo \<lparr> selectedContext := ''42'' \<rparr>)"
    by (simp add: st_demo_def)
  have a: "sublist restrictive_instruction (prompt st_demo)
           \<and> sublist (ctx_content (hd (contexts st_demo))) (prompt st_demo)
           \<and> sublist (input st_demo) (prompt st_demo)"
    using prompt_construction [of st_demo "hd (contexts st_demo)"] f by blast
  have b: "prompt (st_demo \<lparr> selectedContext := ''42'' \<rparr>) = input st_demo"
    using prompt_construction [of "st_demo \<lparr> selectedContext := ''42'' \<rparr>"] g by simp
  have c: "prompt (st_demo \<lparr> selectedContext := no_context \<rparr>) = input st_demo"
    using prompt_construction [of "st_demo \<lparr> selectedContext := no_context \<rparr>"] by simp
  show ?thesis using f a b c by blast
qed

subsection \<open>The retry loop\<close>

text \<open>One turn of the loop, by what \<^verbatim>\<open>makeRequest\<close> does in it.\<close>

lemma rate_limit_iff:
  "instanceof_Error e \<and> message e = RATE_LIMIT \<longleftrightarrow> e = JsError RATE_LIMIT"
  by (cases e) auto

lemma retry_loop_data:
  assumes "retryCount < maxRetries" and "makeRequest ep calls s = Inr data"
  shows "retry_loop ep s calls retryCount = (Inr data, [Fetch (the_request s)])"
  using assms by (simp add: retry_loop.simps [of ep s calls retryCount])

lemma retry_loop_fail:
  assumes "retryCount < maxRetries" and "makeRequest ep calls s = Inl e"
    and "e \<noteq> JsError RATE_LIMIT"
  shows "retry_loop ep s calls retryCount = (Inl e, [Fetch (the_request s)])"
  using assms by (cases e) (auto simp: retry_loop.simps [of ep s calls retryCount])

lemma retry_loop_exhausted:
  assumes "retryCount + 1 = maxRetries" and "makeRequest ep calls s = Inl (JsError RATE_LIMIT)"
  shows "retry_loop ep s calls retryCount = (Inl (JsError RATE_LIMIT), [Fetch (the_request s)])"
  using assms by (simp add: retry_loop.simps [of ep s calls retryCount])

lemma retry_loop_again:
  assumes "retryCount + 1 < maxRetries" and "makeRequest ep calls s = Inl (JsError RATE_LIMIT)"
  shows "retry_loop ep s calls retryCount =
           (fst (retry_loop ep s (calls + 1) (retryCount + 1)),
            [Fetch (the_request s),
             Toast (retry_toast (2 ^ (retryCount + 1) * 1000) (retryCount + 1)),
             Delay (2 ^ (retryCount + 1) * 1000)]
            @ snd (retry_loop ep s (calls + 1) (retryCount + 1)))"
  using assms
  by (simp add: retry_loop.simps [of ep s calls retryCount] Let_def case_prod_beta)

lemma retry_loop_next:
  assumes "retryCount + 1 < maxRetries" and "makeRequest ep calls s = Inl (JsError RATE_LIMIT)"
    and "retry_loop ep s calls' retryCount' = (r, evs)"
    and "calls' = calls + 1" and "retryCount' = retryCount + 1"
    and "waitTime = 2 ^ retryCount' * 1000"
  shows "retry_loop ep s calls retryCount =
           (r, [Fetch (the_request s), Toast (retry_toast waitTime retryCount'), Delay waitTime] @ evs)"
  using retry_loop_again [OF assms(1,2)] assms(3-6) by simp

lemma makeRequest_429:
  assumes "ep n (the_request s) = Inr r" and "status r = 429" and "json r = Inr d"
  shows "makeRequest ep n s = Inl (JsError RATE_LIMIT)"
  using assms by (simp add: makeRequest_def ok_def)

lemma makeRequest_ok:
  assumes "ep n (the_request s) = Inr r" and "ok r"
  shows "makeRequest ep n s = json r"
  using assms by (simp add: makeRequest_def)

lemma makeRequest_failed:
  assumes "ep n (the_request s) = Inr r" and "\<not> ok r" and "status r \<noteq> 429"
    and "json r = Inr d" and "error_text d (statusText r) = Inr m" and "ToString m = Inr t"
  shows "makeRequest ep n s = Inl (JsError t)"
  using assms by (simp add: makeRequest_def)

lemma makeRequest_cong:
  "the_request s1 = the_request s2 \<Longrightarrow> makeRequest ep n s1 = makeRequest ep n s2"
  by (simp add: makeRequest_def)

lemma retry_loop_cong:
  "the_request s1 = the_request s2 \<Longrightarrow> retry_loop ep s1 calls retryCount = retry_loop ep s2 calls retryCount"
proof (induction ep s1 calls retryCount rule: retry_loop.induct)
  case (1 ep s calls retryCount)
  note rq = "1.prems"
  have m: "makeRequest ep calls s2 = makeRequest ep calls s"
    using rq by (simp add: makeRequest_def)
  show ?case
  proof (cases "retryCount < maxRetries")
    case False
    then show ?thesis
      by (simp add: retry_loop.simps [of ep s calls retryCount]
                    retry_loop.simps [of ep s2 calls retryCount])
  next
    case True
    show ?thesis
    proof (cases "makeRequest ep calls s")
      case (Inr data)
      then have "makeRequest ep calls s2 = Inr data" using m by simp
      then show ?thesis
        using retry_loop_data [OF True Inr] retry_loop_data [OF True, of ep calls s2 data] rq
        by simp
    next
      case (Inl e)
      then have m2: "makeRequest ep calls s2 = Inl e" using m by simp
      show ?thesis
      proof (cases "e = JsError RATE_LIMIT")
        case False
        show ?thesis
          using retry_loop_fail [OF True Inl False] retry_loop_fail [OF True m2 False] rq
          by simp
      next
        case rl: True
        show ?thesis
        proof (cases "retryCount + 1 < maxRetries")
          case False
          then have x: "retryCount + 1 = maxRetries" using True by simp
          show ?thesis
            using retry_loop_exhausted [OF x Inl [unfolded rl]]
                  retry_loop_exhausted [OF x m2 [unfolded rl]] rq
            by simp
        next
          case lt: True
          have "instanceof_Error e \<and> message e = RATE_LIMIT \<and> retryCount + 1 < maxRetries"
            using lt rl by simp
          from "1.IH" [OF True Inl this refl rq]
          have ih: "retry_loop ep s (calls + 1) (retryCount + 1)
                      = retry_loop ep s2 (calls + 1) (retryCount + 1)" .
          show ?thesis
            using retry_loop_again [OF lt Inl [unfolded rl]]
                  retry_loop_again [OF lt m2 [unfolded rl]] rq ih
            by simp
        qed
      qed
    qed
  qed
qed


text \<open>The run of \<^verbatim>\<open>handleSend\<close> past its two guards, by what the loop gives.\<close>

lemma handleSend_run:
  assumes "trim (input s) \<noteq> []" and "apiKey s \<noteq> []"
  shows "handleSend ep s =
    (case (case fst (retry_loop ep s 0 0) of Inl e \<Rightarrow> Inl e | Inr data \<Rightarrow> extract_text data) of
       Inr text \<Rightarrow>
         (s \<lparr> messages := messages s @ [user_message s, \<lparr> role = Assistant, content = text \<rparr>],
              input := [], isLoading := False \<rparr>,
          snd (retry_loop ep s 0 0))
     | Inl error \<Rightarrow>
         (s \<lparr> messages := messages s @ [user_message s], input := [], isLoading := False \<rparr>,
          snd (retry_loop ep s 0 0) @ [Toast (error_toast error), ConsoleError error]))"
  using assms
  by (simp add: handleSend_def user_message_def Let_def case_prod_beta split: sum.splits)

lemma handleSend_thrown:
  assumes "trim (input s) \<noteq> []" and "apiKey s \<noteq> []"
    and "retry_loop ep s 0 0 = (Inl e, evs)"
  shows "handleSend ep s =
           (s \<lparr> messages := messages s @ [user_message s], input := [], isLoading := False \<rparr>,
            evs @ [Toast (error_toast e), ConsoleError e])"
  using assms by (simp add: handleSend_run)

lemma handleSend_data:
  assumes "trim (input s) \<noteq> []" and "apiKey s \<noteq> []"
    and "retry_loop ep s 0 0 = (Inr data, evs)" and "extract_text data = Inr text"
  shows "handleSend ep s =
           (s \<lparr> messages := messages s @ [user_message s, \<lparr> role = Assistant, content = text \<rparr>],
                input := [], isLoading := False \<rparr>, evs)"
  using assms by (simp add: handleSend_run)

lemma handleSend_bad_data:
  assumes "trim (input s) \<noteq> []" and "apiKey s \<noteq> []"
    and "retry_loop ep s 0 0 = (Inr data, evs)" and "extract_text data = Inl e"
  shows "handleSend ep s =
           (s \<lparr> messages := messages s @ [user_message s], input := [], isLoading := False \<rparr>,
            evs @ [Toast (error_toast e), ConsoleError e])"
  using assms by (simp add: handleSend_run)

lemma retry_toast_1: "retry_toast 2000 1 =
   \<lparr> title = ''Rate limit reached'',
     description = ''Retrying in 2 seconds... (Attempt 1/3)'', variant = Default \<rparr>"
  by (simp add: retry_toast_def maxRetries_def show_nat.simps)

lemma retry_toast_2: "retry_toast 4000 2 =
   \<lparr> title = ''Rate limit reached'',
     description = ''Retrying in 4 seconds... (Attempt 2/3)'', variant = Default \<rparr>"
  by (simp add: retry_toast_def maxRetries_def show_nat.simps)

lemma error_toast_rate_limit:
  "error_toast (JsError RATE_LIMIT) =
     \<lparr> title = ''Error'', description = ''Rate limit exceeded. Please try again later.'',
       variant = Destructive \<rparr>"
  by (simp add: error_toast_def)

lemma error_toast_other:
  "m \<noteq> RATE_LIMIT \<Longrightarrow>
   error_toast (JsError m) = \<lparr> title = ''Error'', description = m, variant = Destructive \<rparr>"
  by (simp add: error_toast_def)

text \<open>Two rate-limited calls, then whatever the third call gives.\<close>

lemma retry_loop_two_limits:
  assumes m0: "makeRequest ep 0 s = Inl (JsError RATE_LIMIT)"
    and m1: "makeRequest ep 1 s = Inl (JsError RATE_LIMIT)"
    and l2: "retry_loop ep s 2 2 = (r, evs)"
  shows "retry_loop ep s 0 0 =
     (r, [Fetch (the_request s),
          Toast \<lparr> title = ''Rate limit reached'',
                  description = ''Retrying in 2 seconds... (Attempt 1/3)'', variant = Default \<rparr>,
          Delay 2000,
          Fetch (the_request s),
          Toast \<lparr> title = ''Rate limit reached'',
                  description = ''Retrying in 4 seconds... (Attempt 2/3)'', variant = Default \<rparr>,
          Delay 4000] @ evs)"
proof -
  have l1: "retry_loop ep s 1 1 =
      (r, [Fetch (the_request s), Toast (retry_toast 4000 2), Delay 4000] @ evs)"
    by (rule retry_loop_next [OF _ m1 l2]) (simp_all add: maxRetries_def)
  have "retry_loop ep s 0 0 =
      (r, [Fetch (the_request s), Toast (retry_toast 2000 1), Delay 2000]
          @ ([Fetch (the_request s), Toast (retry_toast 4000 2), Delay 4000] @ evs))"
    by (rule retry_loop_next [OF _ m0 l1]) (simp_all add: maxRetries_def)
  then show ?thesis
    unfolding retry_toast_1 retry_toast_2 by simp
qed

text \<open>
  When the first two calls are answered with status 429 and a body that is JSON, and the
  third with a success status and a body that holds a reply, the run makes three calls,
  announces and waits 2 seconds, then 4 seconds, and appends the reply.
\<close>

lemma limited_twice_then_reply:
  assumes nb: "trim (input s) \<noteq> []" and key: "apiKey s \<noteq> []"
    and r0: "ep 0 (the_request s) = Inr r0" "status r0 = 429" "json r0 = Inr d0"
    and r1: "ep 1 (the_request s) = Inr r1" "status r1 = 429" "json r1 = Inr d1"
    and r2: "ep 2 (the_request s) = Inr r2" "ok r2" "json r2 = Inr data"
    and tx: "extract_text data = Inr text"
  shows "handleSend ep s =
     (s \<lparr> messages := messages s @ [user_message s, \<lparr> role = Assistant, content = text \<rparr>],
          input := [], isLoading := False \<rparr>,
      [Fetch (the_request s),
       Toast \<lparr> title = ''Rate limit reached'',
               description = ''Retrying in 2 seconds... (Attempt 1/3)'', variant = Default \<rparr>,
       Delay 2000,
       Fetch (the_request s),
       Toast \<lparr> title = ''Rate limit reached'',
               description = ''Retrying in 4 seconds... (Attempt 2/3)'', variant = Default \<rparr>,
       Delay 4000,
       Fetch (the_request s)])"
proof -
  have m0: "makeRequest ep 0 s = Inl (JsError RATE_LIMIT)" using r0 by (rule makeRequest_429)
  have m1: "makeRequest ep 1 s = Inl (JsError RATE_LIMIT)" using r1 by (rule makeRequest_429)
  have m2: "makeRequest ep 2 s = Inr data" using makeRequest_ok [of ep 2 s r2] r2 by simp
  have l2: "retry_loop ep s 2 2 = (Inr data, [Fetch (the_request s)])"
    using m2 by (intro retry_loop_data) (simp_all add: maxRetries_def)
  show ?thesis
    using handleSend_data [OF nb key retry_loop_two_limits [OF m0 m1 l2] tx] by simp
qed

text \<open>
  When all three calls are answered with status 429 and a body that is JSON, the run stops
  after the third call with the "Rate limit exceeded" notification.
\<close>

lemma limited_three_times:
  assumes nb: "trim (input s) \<noteq> []" and key: "apiKey s \<noteq> []"
    and r0: "ep 0 (the_request s) = Inr r0" "status r0 = 429" "json r0 = Inr d0"
    and r1: "ep 1 (the_request s) = Inr r1" "status r1 = 429" "json r1 = Inr d1"
    and r2: "ep 2 (the_request s) = Inr r2" "status r2 = 429" "json r2 = Inr d2"
  shows "handleSend ep s =
     (s \<lparr> messages := messages s @ [user_message s], input := [], isLoading := False \<rparr>,
      [Fetch (the_request s),
       Toast \<lparr> title = ''Rate limit reached'',
               description = ''Retrying in 2 seconds... (Attempt 1/3)'', variant = Default \<rparr>,
       Delay 2000,
       Fetch (the_request s),
       Toast \<lparr> title = ''Rate limit reached'',
               description = ''Retrying in 4 seconds... (Attempt 2/3)'', variant = Default \<rparr>,
       Delay 4000,
       Fetch (the_request s),
       Toast \<lparr> title = ''Error'', description = ''Rate limit exceeded. Please try again later.'',
               variant = Destructive \<rparr>,
       ConsoleError (JsError RATE_LIMIT)])"
proof -
  have m0: "makeRequest ep 0 s = Inl (JsError RATE_LIMIT)" using r0 by (rule makeRequest_429)
  have m1: "makeRequest ep 1 s = Inl (JsError RATE_LIMIT)" using r1 by (rule makeRequest_429)
  have m2: "makeRequest ep 2 s = Inl (JsError RATE_LIMIT)" using r2 by (rule makeRequest_429)
  have l2: "retry_loop ep s 2 2 = (Inl (JsError RATE_LIMIT), [Fetch (the_request s)])"
    using m2 by (intro retry_loop_exhausted) (simp_all add: maxRetries_def)
  show ?thesis
    using handleSend_thrown [OF nb key retry_loop_two_limits [OF m0 m1 l2]]
    by (simp add: error_toast_rate_limit)
qed

subsection \<open>Rate limits answered without a JSON body\<close>

lemma st_demo_ready: "trim (input st_demo) \<noteq> [] \<and> apiKey st_demo \<noteq> []"
  by (simp add: st_demo_def trim_def is_ws_def)

text \<open>
  C3. The claim asks for three calls, with waits of 2 and 4 seconds, whenever the first
  two calls are answered with status 429. The source reads the body of every failed
  response with \<^verbatim>\<open>response.json()\<close> before it looks at the status, so a 429 response whose
  body is not JSON (here: an empty body) is not taken as a rate limit: the run below makes
  one call, waits for nothing and ends with the parser's message as an error, although the
  third call would have been answered.
\<close>

theorem rate_limit_without_json_not_retried:
  "handleSend ep_limit_twice_empty st_demo =
     (st_demo \<lparr> messages := [user_message st_demo], input := [], isLoading := False \<rparr>,
      [Fetch (the_request st_demo),
       Toast \<lparr> title = ''Error'', description = ''Unexpected end of JSON input'',
               variant = Destructive \<rparr>,
       ConsoleError (JsError ''Unexpected end of JSON input'')])
   \<and> network_calls (snd (handleSend ep_limit_twice_empty st_demo)) = 1"
proof -
  have m: "makeRequest ep_limit_twice_empty 0 st_demo = Inl (JsError ''Unexpected end of JSON input'')"
    by (simp add: makeRequest_def ep_limit_twice_empty_def resp_429_empty_def ok_def)
  have l: "retry_loop ep_limit_twice_empty st_demo 0 0 =
             (Inl (JsError ''Unexpected end of JSON input''), [Fetch (the_request st_demo)])"
    by (rule retry_loop_fail [OF _ m]) (simp_all add: maxRetries_def RATE_LIMIT_def)
  have h: "handleSend ep_limit_twice_empty st_demo =
     (st_demo \<lparr> messages := [user_message st_demo], input := [], isLoading := False \<rparr>,
      [Fetch (the_request st_demo),
       Toast \<lparr> title = ''Error'', description = ''Unexpected end of JSON input'',
               variant = Destructive \<rparr>,
       ConsoleError (JsError ''Unexpected end of JSON input'')])"
    using handleSend_thrown [OF st_demo_ready [THEN conjunct1] st_demo_ready [THEN conjunct2] l]
    by (simp add: error_toast_def RATE_LIMIT_def st_demo_def)
  show ?thesis
    unfolding h by (simp add: network_calls_def)
qed

text \<open>
  C4. The claim asks for exactly three calls and the "rate limit exceeded" outcome when
  every call is answered with status 429. For the same reason as above, an endpoint that
  answers 429 with an empty body every time gets one call, no retry notice, and the
  parser's message instead of the rate-limit message.
\<close>

theorem rate_limit_always_without_json_one_call:
  "handleSend ep_limit_always_empty st_demo =
     (st_demo \<lparr> messages := [user_message st_demo], input := [], isLoading := False \<rparr>,
      [Fetch (the_request st_demo),
       Toast \<lparr> title = ''Error'', description = ''Unexpected end of JSON input'',
               variant = Destructive \<rparr>,
       ConsoleError (JsError ''Unexpected end of JSON input'')])
   \<and> network_calls (snd (handleSend ep_limit_always_empty st_demo)) = 1"
proof -
  have m: "makeRequest ep_limit_always_empty 0 st_demo = Inl (JsError ''Unexpected end of JSON input'')"
    by (simp add: makeRequest_def ep_limit_always_empty_def resp_429_empty_def ok_def)
  have l: "retry_loop ep_limit_always_empty st_demo 0 0 =
             (Inl (JsError ''Unexpected end of JSON input''), [Fetch (the_request st_demo)])"
    by (rule retry_loop_fail [OF _ m]) (simp_all add: maxRetries_def RATE_LIMIT_def)
  have h: "handleSend ep_limit_always_empty st_demo =
     (st_demo \<lparr> messages := [user_message st_demo], input := [], isLoading := False \<rparr>,
      [Fetch (the_request st_demo),
       Toast \<lparr> title = ''Error'', description = ''Unexpected end of JSON input'',
               variant = Destructive \<rparr>,
       ConsoleError (JsError ''Unexpected end of JSON input'')])"
    using handleSend_thrown [OF st_demo_ready [THEN conjunct1] st_demo_ready [THEN conjunct2] l]
    by (simp add: error_toast_def RATE_LIMIT_def st_demo_def)
  show ?thesis
    unfolding h by (simp add: network_calls_def)
qed

subsection \<open>Failed requests\<close>


text \<open>
  C5. The claim asks for exactly one call, and the provider's message, for every response
  with a non-success status other than 429. \<^verbatim>\<open>makeRequest\<close> tells a 429 from the other
  failures by the status, but it reports the 429 by throwing an error whose message is
  \<^verbatim>\<open>RATE_LIMIT\<close>, and the loop recognises a rate limit by that message alone. A response
  with status 500 whose error message is that very text is therefore retried: three calls,
  two waits, and the "rate limit exceeded" notification instead of the provider's message.
\<close>

theorem marker_message_is_retried:
  "snd (handleSend ep_500_marker st_demo) =
      [Fetch (the_request st_demo),
       Toast \<lparr> title = ''Rate limit reached'',
               description = ''Retrying in 2 seconds... (Attempt 1/3)'', variant = Default \<rparr>,
       Delay 2000,
       Fetch (the_request st_demo),
       Toast \<lparr> title = ''Rate limit reached'',
               description = ''Retrying in 4 seconds... (Attempt 2/3)'', variant = Default \<rparr>,
       Delay 4000,
       Fetch (the_request st_demo),
       Toast \<lparr> title = ''Error'', description = ''Rate limit exceeded. Please try again later.'',
               variant = Destructive \<rparr>,
       ConsoleError (JsError ''RATE_LIMIT'')]
   \<and> network_calls (snd (handleSend ep_500_marker st_demo)) = 3"
proof -
  have m: "makeRequest ep_500_marker n st_demo = Inl (JsError RATE_LIMIT)" for n
    by (simp add: makeRequest_def ep_500_marker_def resp_500_def ok_def error_text_def RATE_LIMIT_def)
  have l2: "retry_loop ep_500_marker st_demo 2 2 =
              (Inl (JsError RATE_LIMIT), [Fetch (the_request st_demo)])"
    by (rule retry_loop_exhausted [OF _ m]) (simp add: maxRetries_def)
  have h: "snd (handleSend ep_500_marker st_demo) =
      [Fetch (the_request st_demo),
       Toast \<lparr> title = ''Rate limit reached'',
               description = ''Retrying in 2 seconds... (Attempt 1/3)'', variant = Default \<rparr>,
       Delay 2000,
       Fetch (the_request st_demo),
       Toast \<lparr> title = ''Rate limit reached'',
               description = ''Retrying in 4 seconds... (Attempt 2/3)'', variant = Default \<rparr>,
       Delay 4000,
       Fetch (the_request st_demo),
       Toast \<lparr> title = ''Error'', description = ''Rate limit exceeded. Please try again later.'',
               variant = Destructive \<rparr>,
       ConsoleError (JsError ''RATE_LIMIT'')]"
    using handleSend_thrown [OF st_demo_ready [THEN conjunct1] st_demo_ready [THEN conjunct2]
            retry_loop_two_limits [OF m m l2]]
    by (simp add: error_toast_rate_limit) (simp add: RATE_LIMIT_def)
  show ?thesis
    unfolding h by (simp add: network_calls_def)
qed

text \<open>
  For the other failed responses the source retries nothing. Take a response with a
  non-success status other than 429 whose body is JSON and not \<^verbatim>\<open>null\<close>, and let \<open>m\<close> be
  the text of the \<^verbatim>\<open>message\<close> of its \<^verbatim>\<open>error\<close> when there is one and it is truthy, and the
  status text otherwise. When \<open>m\<close> is not \<^verbatim>\<open>RATE_LIMIT\<close>, the run makes exactly one call and
  ends with the "Error" notification whose description is \<open>m\<close>.
\<close>

lemma request_failed_once:
  assumes nb: "trim (input s) \<noteq> []" and key: "apiKey s \<noteq> []"
    and r: "ep 0 (the_request s) = Inr resp" and nok: "\<not> ok resp" and st: "status resp \<noteq> 429"
    and js: "json resp = Inr errorData"
    and er: "get_prop errorData ''error'' = Inr err"
    and ms: "(if err = Undefined \<or> err = Null then Inr Undefined else get_prop err ''message'') = Inr msg"
    and m: "ToString (if truthy msg then msg else JStr (statusText resp)) = Inr m"
    and nm: "m \<noteq> RATE_LIMIT"
  shows "handleSend ep s =
           (s \<lparr> messages := messages s @ [user_message s], input := [], isLoading := False \<rparr>,
            [Fetch (the_request s),
             Toast \<lparr> title = ''Error'', description = m, variant = Destructive \<rparr>,
             ConsoleError (JsError m)])
         \<and> network_calls (snd (handleSend ep s)) = 1"
proof -
  have et: "error_text errorData (statusText resp) = Inr (if truthy msg then msg else JStr (statusText resp))"
    using er ms by (simp add: error_text_def)
  have mr: "makeRequest ep 0 s = Inl (JsError m)"
    by (rule makeRequest_failed [of ep 0 s, OF r nok st js et m])
  have l: "retry_loop ep s 0 0 = (Inl (JsError m), [Fetch (the_request s)])"
    by (rule retry_loop_fail [OF _ mr]) (use nm in \<open>simp_all add: maxRetries_def\<close>)
  have h: "handleSend ep s =
           (s \<lparr> messages := messages s @ [user_message s], input := [], isLoading := False \<rparr>,
            [Fetch (the_request s),
             Toast \<lparr> title = ''Error'', description = m, variant = Destructive \<rparr>,
             ConsoleError (JsError m)])"
    using handleSend_thrown [OF nb key l] nm by (simp add: error_toast_other)
  show ?thesis
    unfolding h by (simp add: network_calls_def)
qed

text \<open>The example of the specification: status 500 with the message "boom".\<close>

lemma request_failed_boom:
  "handleSend ep_500_boom st_demo =
           (st_demo \<lparr> messages := messages st_demo @ [user_message st_demo], input := [],
                      isLoading := False \<rparr>,
            [Fetch (the_request st_demo),
             Toast \<lparr> title = ''Error'', description = ''boom'', variant = Destructive \<rparr>,
             ConsoleError (JsError ''boom'')])
   \<and> network_calls (snd (handleSend ep_500_boom st_demo)) = 1"
proof -
  have h1: "ep_500_boom 0 (the_request st_demo) = Inr (resp_500 ''boom'')"
    by (simp add: ep_500_boom_def)
  have h2: "\<not> ok (resp_500 ''boom'')" and h3: "status (resp_500 ''boom'') \<noteq> 429"
    by (simp_all add: ok_def resp_500_def)
  have h4: "json (resp_500 ''boom'') = Inr (JObj [(''error'', JObj [(''message'', JStr ''boom'')])])"
    by (simp add: resp_500_def)
  have h5: "get_prop (JObj [(''error'', JObj [(''message'', JStr ''boom'')])]) ''error''
        = Inr (JObj [(''message'', JStr ''boom'')])"
    by simp
  have h6: "(if JObj [(''message'', JStr ''boom'')] = Undefined \<or> JObj [(''message'', JStr ''boom'')] = Null
             then Inr Undefined else get_prop (JObj [(''message'', JStr ''boom'')]) ''message'')
             = Inr (JStr ''boom'')"
    by simp
  have h7: "ToString (if truthy (JStr ''boom'') then JStr ''boom''
                      else JStr (statusText (resp_500 ''boom''))) = Inr ''boom''"
    by simp
  have h8: "''boom'' \<noteq> RATE_LIMIT"
    by (simp add: RATE_LIMIT_def)
  show ?thesis
    by (rule request_failed_once [of st_demo ep_500_boom, OF st_demo_ready [THEN conjunct1]
         st_demo_ready [THEN conjunct2] h1 h2 h3 h4 h5 h6 h7 h8])
qed

text \<open>
  A message that is an object with a \<^verbatim>\<open>toString\<close> property cannot be printed: the error
  that is shown is the \<^verbatim>\<open>TypeError\<close> of the conversion.
\<close>

lemma unprintable_message:
  "ToString (JObj [(''toString'', JNum ''1'')])
     = Inl (JsError ''Cannot convert object to primitive value'')
   \<and> ToString (JArr [JNum ''1'', Null, JObj []]) = Inr ''1,,[object Object]''"
  by simp

subsection \<open>The body of a successful response\<close>

lemma then_get_Inl [simp]: "then_get (Inl e) k = Inl e"
  by (simp add: then_get_def)

lemma then_get_Inr [simp]: "then_get (Inr v) k = get_prop v k"
  by (simp add: then_get_def)

lemma foldl_then_get_Inl: "foldl then_get (Inl e) ks = Inl e"
  by (induction ks) simp_all

lemma get_prop_throws: "(\<exists>e. get_prop v k = Inl e) \<longleftrightarrow> v = Undefined \<or> v = Null"
  by (cases v) (auto split: option.splits)

lemma safe_path_chain:
  "safe_path v ks = (case foldl then_get (Inr v) ks of Inl e \<Rightarrow> Undefined | Inr w \<Rightarrow> w)"
proof (induction ks arbitrary: v)
  case Nil
  show ?case by simp
next
  case (Cons k ks)
  show ?case
  proof (cases "get_prop v k")
    case (Inl e)
    then show ?thesis by (simp add: foldl_then_get_Inl)
  next
    case (Inr w)
    then show ?thesis using Cons.IH [of w] by simp
  qed
qed

lemma extract_text_chain:
  "truthy data \<Longrightarrow>
   extract_text data = then_get (foldl then_get (Inr data) first_part_path) ''text''"
  by (simp add: extract_text_def first_part_path_def)

lemma not_candidates_index: "array_index ''candidates'' = None"
  by (simp add: array_index_def is_digit_def)

lemma falsy_no_first_part:
  "\<not> truthy data \<Longrightarrow> safe_path data first_part_path = Undefined"
  by (cases data) (simp_all add: first_part_path_def not_candidates_index)

lemma extract_text_missing:
  assumes "safe_path data first_part_path = Undefined \<or> safe_path data first_part_path = Null"
  shows "\<exists>e. extract_text data = Inl e"
proof (cases "truthy data")
  case False
  then show ?thesis by (simp add: extract_text_def)
next
  case True
  show ?thesis
  proof (cases "foldl then_get (Inr data) first_part_path")
    case (Inl e)
    then show ?thesis using True by (simp add: extract_text_chain)
  next
    case (Inr w)
    then have "safe_path data first_part_path = w" by (simp add: safe_path_chain)
    then have "w = Undefined \<or> w = Null" using assms by simp
    then show ?thesis using True Inr by (auto simp: extract_text_chain)
  qed
qed

lemma extract_text_present:
  assumes "safe_path data first_part_path \<noteq> Undefined" and "safe_path data first_part_path \<noteq> Null"
  shows "\<exists>text. get_prop (safe_path data first_part_path) ''text'' = Inr text
              \<and> extract_text data = Inr text"
proof -
  have t: "truthy data" using assms(1) falsy_no_first_part by blast
  obtain w where w: "foldl then_get (Inr data) first_part_path = Inr w"
    using assms(1) by (cases "foldl then_get (Inr data) first_part_path") (simp_all add: safe_path_chain)
  then have sp: "safe_path data first_part_path = w" by (simp add: safe_path_chain)
  have "\<not> (\<exists>e. get_prop w ''text'' = Inl e)"
    using assms sp by (simp add: get_prop_throws)
  then obtain v where "get_prop w ''text'' = Inr v"
    by (cases "get_prop w ''text''") auto
  then show ?thesis using t w sp by (simp add: extract_text_chain)
qed

text \<open>
  C6. The claim asks for an error whenever the body of a successful response lacks the
  first candidate's first text part. The source declares the content of a message a
  string, but reads \<^verbatim>\<open>data.candidates[0].content.parts[0].text\<close> without checking what it
  gets. Where the path breaks before the first part, reading a property of \<^verbatim>\<open>undefined\<close>
  throws and the error is notified; where the first part is there and has no \<^verbatim>\<open>text\<close>,
  the last read gives \<^verbatim>\<open>undefined\<close> without throwing: no error is notified, and an
  assistant message whose content is \<^verbatim>\<open>undefined\<close> is appended.
\<close>

theorem no_text_is_not_an_error:
  "handleSend ep_200_no_text st_demo =
     (st_demo \<lparr> messages := [user_message st_demo, \<lparr> role = Assistant, content = Undefined \<rparr>],
                input := [], isLoading := False \<rparr>,
      [Fetch (the_request st_demo)])"
proof -
  have m: "makeRequest ep_200_no_text 0 st_demo =
       Inr (JObj [(''candidates'',
              JArr [JObj [(''content'', JObj [(''parts'', JArr [JObj []])])]])])"
    by (simp add: makeRequest_def ep_200_no_text_def resp_200_def ok_def)
  have l: "retry_loop ep_200_no_text st_demo 0 0 =
       (Inr (JObj [(''candidates'',
              JArr [JObj [(''content'', JObj [(''parts'', JArr [JObj []])])]])]),
        [Fetch (the_request st_demo)])"
    by (rule retry_loop_data [OF _ m]) (simp add: maxRetries_def)
  have x: "extract_text (JObj [(''candidates'',
              JArr [JObj [(''content'', JObj [(''parts'', JArr [JObj []])])]])]) = Inr Undefined"
    by (simp add: extract_text_def array_index_def is_digit_def digit_val_def)
  show ?thesis
    using handleSend_data [OF st_demo_ready [THEN conjunct1] st_demo_ready [THEN conjunct2] l x]
    by (simp add: st_demo_def)
qed

text \<open>
  For the other malformed bodies the source does raise the error. When the body has no
  \<^verbatim>\<open>candidates\<close>, no first candidate, no \<^verbatim>\<open>content\<close>, no \<^verbatim>\<open>parts\<close> or no first part (the
  path to the first part ends in \<^verbatim>\<open>undefined\<close> or \<^verbatim>\<open>null\<close>), reading the text throws, and
  the run ends with the "Error" notification for what was thrown and appends no assistant
  message.
\<close>

lemma missing_structure_is_error:
  assumes nb: "trim (input s) \<noteq> []" and key: "apiKey s \<noteq> []"
    and r: "ep 0 (the_request s) = Inr resp" and ok: "ok resp" and js: "json resp = Inr data"
    and np: "safe_path data first_part_path = Undefined \<or> safe_path data first_part_path = Null"
  shows "\<exists>e. extract_text data = Inl e
           \<and> handleSend ep s =
                 (s \<lparr> messages := messages s @ [user_message s], input := [], isLoading := False \<rparr>,
                  [Fetch (the_request s), Toast (error_toast e), ConsoleError e])"
proof -
  have m: "makeRequest ep 0 s = Inr data"
    using makeRequest_ok [of ep 0 s resp] r ok js by simp
  have l: "retry_loop ep s 0 0 = (Inr data, [Fetch (the_request s)])"
    by (rule retry_loop_data [OF _ m]) (simp add: maxRetries_def)
  obtain e where x: "extract_text data = Inl e"
    using extract_text_missing [OF np] by blast
  from handleSend_bad_data [OF nb key l x] x show ?thesis
    by auto
qed

text \<open>The example of the specification: a body without \<^verbatim>\<open>candidates\<close>.\<close>

lemma no_candidates_is_error:
  "handleSend ep_200_no_candidates st_demo =
     (st_demo \<lparr> messages := messages st_demo @ [user_message st_demo], input := [],
                isLoading := False \<rparr>,
      [Fetch (the_request st_demo),
       Toast \<lparr> title = ''Error'', description = type_error_message ''undefined'' ''0'',
               variant = Destructive \<rparr>,
       ConsoleError (JsError (type_error_message ''undefined'' ''0''))])"
proof -
  have m: "makeRequest ep_200_no_candidates 0 st_demo = Inr (JObj [])"
    by (simp add: makeRequest_def ep_200_no_candidates_def resp_200_def ok_def)
  have l: "retry_loop ep_200_no_candidates st_demo 0 0 = (Inr (JObj []), [Fetch (the_request st_demo)])"
    by (rule retry_loop_data [OF _ m]) (simp add: maxRetries_def)
  have x: "extract_text (JObj []) = Inl (JsError (type_error_message ''undefined'' ''0''))"
    by (simp add: extract_text_def)
  have n: "type_error_message ''undefined'' ''0'' \<noteq> RATE_LIMIT"
    by (simp add: type_error_message_def RATE_LIMIT_def)
  show ?thesis
    using handleSend_bad_data [OF st_demo_ready [THEN conjunct1] st_demo_ready [THEN conjunct2] l x] n
    by (simp add: error_toast_other)
qed

text \<open>
  A successful status with a body that is not JSON: \<^verbatim>\<open>response.json()\<close> rejects inside
  the loop, and unless the rejection carries the message \<^verbatim>\<open>RATE_LIMIT\<close> the run ends with
  the "Error" notification for it after one call.
\<close>

lemma unparsable_body_is_error:
  assumes nb: "trim (input s) \<noteq> []" and key: "apiKey s \<noteq> []"
    and r: "ep 0 (the_request s) = Inr resp" and ok: "ok resp" and js: "json resp = Inl e"
    and ne: "e \<noteq> JsError RATE_LIMIT"
  shows "handleSend ep s =
           (s \<lparr> messages := messages s @ [user_message s], input := [], isLoading := False \<rparr>,
            [Fetch (the_request s), Toast (error_toast e), ConsoleError e])"
proof -
  have m: "makeRequest ep 0 s = Inl e"
    using makeRequest_ok [of ep 0 s resp] r ok js by simp
  have l: "retry_loop ep s 0 0 = (Inl e, [Fetch (the_request s)])"
    by (rule retry_loop_fail [OF _ m ne]) (simp add: maxRetries_def)
  from handleSend_thrown [OF nb key l] show ?thesis
    by simp
qed

text \<open>
  The defect in general: whenever the first part is there, the run notifies nothing and
  appends an assistant message holding whatever the \<^verbatim>\<open>text\<close> property of that part is.
\<close>

lemma first_part_text_appended:
  assumes nb: "trim (input s) \<noteq> []" and key: "apiKey s \<noteq> []"
    and r: "ep 0 (the_request s) = Inr resp" and ok: "ok resp" and js: "json resp = Inr data"
    and p1: "safe_path data first_part_path \<noteq> Undefined"
    and p2: "safe_path data first_part_path \<noteq> Null"
  shows "\<exists>v. get_prop (safe_path data first_part_path) ''text'' = Inr v
           \<and> handleSend ep s =
                 (s \<lparr> messages := messages s @ [user_message s, \<lparr> role = Assistant, content = v \<rparr>],
                      input := [], isLoading := False \<rparr>,
                  [Fetch (the_request s)])"
proof -
  have m: "makeRequest ep 0 s = Inr data"
    using makeRequest_ok [of ep 0 s resp] r ok js by simp
  have l: "retry_loop ep s 0 0 = (Inr data, [Fetch (the_request s)])"
    by (rule retry_loop_data [OF _ m]) (simp add: maxRetries_def)
  obtain v where t: "get_prop (safe_path data first_part_path) ''text'' = Inr v"
      and x: "extract_text data = Inr v"
    using extract_text_present [OF p1 p2] by blast
  from handleSend_data [OF nb key l x] t show ?thesis
    by auto
qed

subsection \<open>The transcript\<close>




subsection \<open>Independence from earlier runs\<close>

text \<open>
  C8. Two runs against the same endpoint, from states that agree on the input, the
  selected context, the contexts and the key, perform the same effects (the same calls,
  waits and notifications) and append the same messages, whatever the transcript and the
  loading flag of each state are: a run reads nothing that an earlier run leaves behind.
\<close>

theorem send_deterministic:
  assumes i: "input s1 = input s2" and c: "selectedContext s1 = selectedContext s2"
    and cs: "contexts s1 = contexts s2" and k: "apiKey s1 = apiKey s2"
  shows "snd (handleSend ep s1) = snd (handleSend ep s2)
       \<and> drop (length (messages s1)) (messages (fst (handleSend ep s1)))
         = drop (length (messages s2)) (messages (fst (handleSend ep s2)))"
proof -
  have p: "prompt s1 = prompt s2" unfolding prompt_def i c cs by (rule refl)
  have rq: "the_request s1 = the_request s2" unfolding the_request_def p k by (rule refl)
  have um: "user_message s1 = user_message s2" unfolding user_message_def i by (rule refl)
  have rl: "retry_loop ep s1 0 0 = retry_loop ep s2 0 0" using rq by (rule retry_loop_cong)
  show ?thesis
  proof (cases "trim (input s1) = []")
    case True
    then show ?thesis using i by (simp add: handleSend_def)
  next
    case nb: False
    then have nb2: "trim (input s2) \<noteq> []" using i by simp
    show ?thesis
    proof (cases "apiKey s1 = []")
      case True
      then show ?thesis using nb i k by (simp add: handleSend_def)
    next
      case key: False
      then have key2: "apiKey s2 \<noteq> []" using k by simp
      show ?thesis
        unfolding handleSend_run [OF nb key] handleSend_run [OF nb2 key2] rl um
        by (simp split: sum.splits)
    qed
  qed
qed

text \<open>The run of the example: rate-limited twice, then answered.\<close>

lemma handleSend_limit_twice:
  "handleSend ep_limit_twice st_demo =
     (st_demo \<lparr> messages := messages st_demo @ [user_message st_demo,
                    \<lparr> role = Assistant, content = JStr ''Blue.'' \<rparr>],
          input := [], isLoading := False \<rparr>,
      [Fetch (the_request st_demo),
       Toast \<lparr> title = ''Rate limit reached'',
               description = ''Retrying in 2 seconds... (Attempt 1/3)'', variant = Default \<rparr>,
       Delay 2000,
       Fetch (the_request st_demo),
       Toast \<lparr> title = ''Rate limit reached'',
               description = ''Retrying in 4 seconds... (Attempt 2/3)'', variant = Default \<rparr>,
       Delay 4000,
       Fetch (the_request st_demo)])"
proof (rule limited_twice_then_reply [of st_demo ep_limit_twice resp_429_json _ resp_429_json _
          "resp_200 (good_body ''Blue.'')" "good_body ''Blue.''"])
  show "extract_text (good_body ''Blue.'') = Inr (JStr ''Blue.'')"
    by (simp add: extract_text_def good_body_def array_index_def is_digit_def digit_val_def)
qed (simp_all add: st_demo_ready ep_limit_twice_def resp_429_json_def resp_200_def ok_def)

theorem send_deterministic_witness:
  "input st_demo = input ((fst (handleSend ep_limit_twice st_demo)) \<lparr> input := input st_demo \<rparr>)
   \<and> selectedContext st_demo
       = selectedContext ((fst (handleSend ep_limit_twice st_demo)) \<lparr> input := input st_demo \<rparr>)
   \<and> contexts st_demo
       = contexts ((fst (handleSend ep_limit_twice st_demo)) \<lparr> input := input st_demo \<rparr>)
   \<and> apiKey st_demo = apiKey ((fst (handleSend ep_limit_twice st_demo)) \<lparr> input := input st_demo \<rparr>)
   \<and> snd (handleSend ep_limit_twice st_demo)
       = snd (handleSend ep_limit_twice
                ((fst (handleSend ep_limit_twice st_demo)) \<lparr> input := input st_demo \<rparr>))
   \<and> drop (length (messages st_demo)) (messages (fst (handleSend ep_limit_twice st_demo)))
       = drop (length (messages ((fst (handleSend ep_limit_twice st_demo)) \<lparr> input := input st_demo \<rparr>)))
           (messages (fst (handleSend ep_limit_twice
                ((fst (handleSend ep_limit_twice st_demo)) \<lparr> input := input st_demo \<rparr>))))
   \<and> drop (length (messages st_demo)) (messages (fst (handleSend ep_limit_twice st_demo)))
       = [user_message st_demo, \<lparr> role = Assistant, content = JStr ''Blue.'' \<rparr>]"
proof -
  let ?s2 = "(fst (handleSend ep_limit_twice st_demo)) \<lparr> input := input st_demo \<rparr>"
  have h1: "input st_demo = input ?s2" by simp
  have h2: "selectedContext st_demo = selectedContext ?s2"
    and h3: "contexts st_demo = contexts ?s2" and h4: "apiKey st_demo = apiKey ?s2"
    by (simp_all add: handleSend_limit_twice)
  have h5: "drop (length (messages st_demo)) (messages (fst (handleSend ep_limit_twice st_demo)))
       = [user_message st_demo, \<lparr> role = Assistant, content = JStr ''Blue.'' \<rparr>]"
    by (simp add: handleSend_limit_twice)
  from send_deterministic [OF h1 h2 h3 h4, of ep_limit_twice] h1 h2 h3 h4 h5
  show ?thesis by blast
qed

subsection \<open>The context collection\<close>

text \<open>
  C9. The id of a context is the clock reading \<^verbatim>\<open>Date.now()\<close> in milliseconds at the moment
  the file has been read. Two files of one drop that are read within the same millisecond
  get the same id: the ids of the collection are not pairwise distinct.
\<close>

theorem same_millisecond_same_id:
  "map ctx_id (contexts (fst (onDrop two_files_same_ms (st_demo \<lparr> contexts := [] \<rparr>))))
     = [''1700000000000'', ''1700000000000'']
   \<and> \<not> distinct (map ctx_id (contexts (fst (onDrop two_files_same_ms (st_demo \<lparr> contexts := [] \<rparr>)))))"
  by (simp add: onDrop_def two_files_same_ms_def show_nat.simps Let_def)

text \<open>
  The rest of C9 holds: \<^verbatim>\<open>onDrop\<close> appends to the collection and changes nothing else, and
  \<^verbatim>\<open>handleSend\<close> leaves the collection alone, so contexts stay in insertion order and are
  neither changed nor removed.
\<close>

lemma onDrop_loop_appends:
  "\<exists>new. fst (snd (onDrop_loop fs ctxs)) = ctxs @ new"
proof (induction fs arbitrary: ctxs)
  case Nil
  show ?case by simp
next
  case (Cons f fs)
  obtain fl now where f: "f = (fl, now)" by (cases f)
  show ?case
  proof (cases "file_text fl")
    case (Inl e)
    then show ?thesis using f by simp
  next
    case (Inr body)
    let ?c = "\<lparr> ctx_id = show_nat now, ctx_name = file_name fl, ctx_content = body \<rparr>"
    obtain new where "fst (snd (onDrop_loop fs (ctxs @ [?c]))) = (ctxs @ [?c]) @ new"
      using Cons.IH by blast
    then have "fst (snd (onDrop_loop (f # fs) ctxs)) = ctxs @ (?c # new)"
      using f Inr by (simp add: case_prod_beta Let_def)
    then show ?thesis by blast
  qed
qed

lemma onDrop_keeps_contexts:
  "\<exists>new. fst (onDrop fs s) = s \<lparr> contexts := contexts s @ new \<rparr>"
proof -
  obtain r ctxs evs where l: "onDrop_loop fs (contexts s) = (r, ctxs, evs)"
    by (cases "onDrop_loop fs (contexts s)") auto
  obtain new where "ctxs = contexts s @ new"
    using onDrop_loop_appends [of fs "contexts s"] l by auto
  then show ?thesis using l by (cases r) (auto simp: onDrop_def)
qed

lemma handleSend_keeps_contexts:
  "contexts (fst (handleSend ep s)) = contexts s"
  by (simp add: handleSend_def Let_def case_prod_beta split: sum.splits)

text \<open>The numeral of a number determines the number.\<close>

lemma digit_val_digit: "d < 10 \<Longrightarrow> digit_val (''0123456789'' ! d) = d"
proof -
  assume "d < 10"
  then have "d \<in> set [0..<10]" by simp
  moreover have "\<forall>d\<in>set [0..<10]. digit_val (''0123456789'' ! d) = d"
    by code_simp
  ultimately show ?thesis by blast
qed

lemma read_show_nat: "foldl (\<lambda>a c. 10 * a + digit_val c) 0 (show_nat n) = n"
proof (induction n rule: show_nat.induct)
  case (1 n)
  show ?case
  proof (cases "n < 10")
    case True
    then show ?thesis by (simp add: show_nat.simps [of n] digit_val_digit)
  next
    case False
    then show ?thesis using "1.IH" by (simp add: show_nat.simps [of n] digit_val_digit)
  qed
qed

lemma show_nat_inj: "show_nat m = show_nat n \<Longrightarrow> m = n"
  by (metis read_show_nat)

text \<open>
  The ids given in one drop are the numerals of the clock readings of the files that were
  read, in order: they are pairwise distinct, and distinct from the ids already in the
  collection, exactly as far as the clock readings are.
\<close>

lemma onDrop_loop_ids:
  "\<exists>k. map ctx_id (fst (snd (onDrop_loop fs ctxs)))
          = map ctx_id ctxs @ map (\<lambda>x. show_nat (snd x)) (take k fs)"
proof (induction fs arbitrary: ctxs)
  case Nil
  show ?case by simp
next
  case (Cons f fs)
  obtain fl now where f: "f = (fl, now)" by (cases f)
  show ?case
  proof (cases "file_text fl")
    case (Inl e)
    then have "map ctx_id (fst (snd (onDrop_loop (f # fs) ctxs)))
          = map ctx_id ctxs @ map (\<lambda>x. show_nat (snd x)) (take 0 (f # fs))"
      using f by simp
    then show ?thesis by blast
  next
    case (Inr body)
    let ?c = "\<lparr> ctx_id = show_nat now, ctx_name = file_name fl, ctx_content = body \<rparr>"
    obtain k where "map ctx_id (fst (snd (onDrop_loop fs (ctxs @ [?c]))))
          = map ctx_id (ctxs @ [?c]) @ map (\<lambda>x. show_nat (snd x)) (take k fs)"
      using Cons.IH by blast
    then have "map ctx_id (fst (snd (onDrop_loop (f # fs) ctxs)))
          = map ctx_id ctxs @ map (\<lambda>x. show_nat (snd x)) (take (Suc k) (f # fs))"
      using f Inr by (simp add: case_prod_beta Let_def)
    then show ?thesis by blast
  qed
qed

lemma distinct_clock_distinct_ids:
  assumes "distinct (map snd fs)" and "distinct (map ctx_id ctxs)"
    and "\<forall>x\<in>set fs. show_nat (snd x) \<notin> ctx_id ` set ctxs"
  shows "distinct (map ctx_id (fst (snd (onDrop_loop fs ctxs))))"
proof -
  obtain k where k: "map ctx_id (fst (snd (onDrop_loop fs ctxs)))
          = map ctx_id ctxs @ map (\<lambda>x. show_nat (snd x)) (take k fs)"
    using onDrop_loop_ids by blast
  have "distinct (map snd (take k fs))"
    using assms(1) by (metis take_map distinct_take)
  then have "distinct (map show_nat (map snd (take k fs)))"
    by (simp add: distinct_map inj_on_def show_nat_inj)
  then have d: "distinct (map (\<lambda>x. show_nat (snd x)) (take k fs))"
    by (simp add: comp_def)
  have "set (take k fs) \<subseteq> set fs" by (rule set_take_subset)
  then have "\<forall>x\<in>set (take k fs). show_nat (snd x) \<notin> ctx_id ` set ctxs"
    using assms(3) by blast
  then have n: "\<forall>x\<in>set (take k fs). show_nat (snd x) \<notin> ctx_id ` set ctxs" .
  have "set (map ctx_id ctxs) \<inter> set (map (\<lambda>x. show_nat (snd x)) (take k fs)) = {}"
  proof (rule ccontr)
    assume "set (map ctx_id ctxs) \<inter> set (map (\<lambda>x. show_nat (snd x)) (take k fs)) \<noteq> {}"
    then obtain y where y1: "y \<in> set (map ctx_id ctxs)"
        and y2: "y \<in> set (map (\<lambda>x. show_nat (snd x)) (take k fs))"
      by blast
    from y2 obtain x where "x \<in> set (take k fs)" and "y = show_nat (snd x)" by auto
    with n have "y \<notin> ctx_id ` set ctxs" by simp
    with y1 show False by simp
  qed
  then show ?thesis
    unfolding k using d assms(2) by (simp only: distinct_append)
qed

end
